theory Spec2Isabelle
  imports Main "HOL-Library.Sublist"
begin

section \<open>Data model (src/types/record.ts)\<close>

text \<open>
  The closed string unions of the source become datatypes.  \<open>ActionType\<close> is
  \<^verbatim>\<open>'review' | 'approve' | 'publish' | 'block'\<close>.
\<close>

datatype Status = Queued | InReview | Approved | Published | Blocked

datatype Impact = High | Medium | Low

datatype Engine = ChatGPT | Gemini | Perplexity

datatype ActionType = review | approve | publish | block

text \<open>
  \<open>ContentRecord\<close>.  The optional \<open>blockReason?: string\<close> is an option; the
  field \<open>id\<close> is renamed \<open>id_rec\<close> because \<open>id\<close> is the identity function of HOL.
\<close>

record ContentRecord =
  id_rec :: string
  prompt :: string
  engine :: Engine
  status :: Status
  impact :: Impact
  safetyFlags :: "string list"
  updatedAt :: string
  blockReason :: "string option"

text \<open>
  \<open>StatusTransition\<close>: the field \<open>from\<close> is \<open>Status | Status[]\<close>, a tagged union
  here, so that \<open>Array.isArray\<close> is the case distinction.
\<close>

datatype FromSpec = One Status | Many "Status list"

record StatusTransition =
  from_t :: FromSpec
  to_t :: Status
  action_t :: ActionType

definition TRANSITIONS :: "StatusTransition list" where
  "TRANSITIONS =
    [ \<lparr>from_t = One Queued, to_t = InReview, action_t = review\<rparr>,
      \<lparr>from_t = One InReview, to_t = Approved, action_t = approve\<rparr>,
      \<lparr>from_t = One Approved, to_t = Published, action_t = publish\<rparr>,
      \<lparr>from_t = Many [Queued, InReview, Approved, Published], to_t = Blocked,
       action_t = block\<rparr> ]"

definition fromMatches :: "StatusTransition \<Rightarrow> Status \<Rightarrow> bool" where
  "fromMatches t currentStatus =
    (case from_t t of
       Many ss \<Rightarrow> List.member ss currentStatus
     | One s \<Rightarrow> s = currentStatus)"

text \<open>
  \<open>getNextStatus\<close>: \<open>TRANSITIONS.find(...)\<close> is \<open>List.find\<close> (first match or
  nothing), and \<open>transition?.to ?? null\<close> is \<open>map_option\<close>; \<open>null\<close> is \<open>None\<close>.
\<close>

definition getNextStatus :: "Status \<Rightarrow> ActionType \<Rightarrow> Status option" where
  "getNextStatus currentStatus action =
    map_option to_t
      (List.find (\<lambda>t. fromMatches t currentStatus \<and> action_t t = action) TRANSITIONS)"

definition isValidAction :: "Status \<Rightarrow> ActionType \<Rightarrow> bool" where
  "isValidAction currentStatus action = (getNextStatus currentStatus action \<noteq> None)"

text \<open>
  The transition table of the specification, written from its words: the listed
  pairs give the listed target, every other pair is rejected.
\<close>

fun nextState_spec :: "Status \<Rightarrow> ActionType \<Rightarrow> Status option" where
  "nextState_spec Queued review = Some InReview"
| "nextState_spec InReview approve = Some Approved"
| "nextState_spec Approved publish = Some Published"
| "nextState_spec Queued block = Some Blocked"
| "nextState_spec InReview block = Some Blocked"
| "nextState_spec Approved block = Some Blocked"
| "nextState_spec Published block = Some Blocked"
| "nextState_spec _ _ = None"

record PendingOperation =
  id_op :: string
  recordId_op :: string
  action_op :: ActionType
  previousStatus :: Status
  timestamp :: nat

section \<open>Pending operation tracker (src/features/records/store/pendingOpsStore.ts)\<close>

text \<open>
  The store holds one field, \<open>operations: Map<string, PendingOperation[]>\<close>.  Every
  action copies the map, changes one key and stores the copy, which is a map update
  here.  \<open>nanoid()\<close> and \<open>Date.now()\<close> are read from the environment, so the fresh
  operation identity and the time are arguments of \<open>addOperation\<close>; the model returns
  the new store, the source returns the identity it was given.
\<close>

record PendingOpsState =
  operations :: "string \<rightharpoonup> PendingOperation list"

definition emptyStore :: PendingOpsState where
  "emptyStore = \<lparr>operations = Map.empty\<rparr>"

definition hasPendingOps :: "PendingOpsState \<Rightarrow> string \<Rightarrow> bool" where
  "hasPendingOps st recordId =
    (case operations st recordId of None \<Rightarrow> False | Some ops \<Rightarrow> length ops > 0)"

definition getLatestAction :: "PendingOpsState \<Rightarrow> string \<Rightarrow> ActionType option" where
  "getLatestAction st recordId =
    (case operations st recordId of
       None \<Rightarrow> None
     | Some ops \<Rightarrow> if length ops = 0 then None else Some (action_op (ops ! (length ops - 1))))"

definition getOperations :: "PendingOpsState \<Rightarrow> string \<Rightarrow> PendingOperation list" where
  "getOperations st recordId =
    (case operations st recordId of None \<Rightarrow> [] | Some ops \<Rightarrow> ops)"

definition addOperation ::
  "PendingOpsState \<Rightarrow> string \<Rightarrow> ActionType \<Rightarrow> Status \<Rightarrow> string \<Rightarrow> nat \<Rightarrow> PendingOpsState" where
  "addOperation st recordId action prevStatus operationId now =
    (let operation = \<lparr>id_op = operationId, recordId_op = recordId, action_op = action,
                       previousStatus = prevStatus, timestamp = now\<rparr>;
         existing = getOperations st recordId
     in st\<lparr>operations := (operations st)(recordId \<mapsto> existing @ [operation])\<rparr>)"

definition removeOperation :: "PendingOpsState \<Rightarrow> string \<Rightarrow> string \<Rightarrow> PendingOpsState" where
  "removeOperation st operationId recordId =
    (let existing = getOperations st recordId;
         filtered = filter (\<lambda>op. id_op op \<noteq> operationId) existing
     in if length filtered = 0
        then st\<lparr>operations := (operations st)(recordId := None)\<rparr>
        else st\<lparr>operations := (operations st)(recordId \<mapsto> filtered)\<rparr>)"

definition clearOperations :: "PendingOpsState \<Rightarrow> string \<Rightarrow> PendingOpsState" where
  "clearOperations st recordId = st\<lparr>operations := (operations st)(recordId := None)\<rparr>"

definition getPendingCount :: "PendingOpsState \<Rightarrow> string \<Rightarrow> nat" where
  "getPendingCount st recordId =
    (case operations st recordId of None \<Rightarrow> 0 | Some ops \<Rightarrow> length ops)"

text \<open>
  A history of tracker calls, run from the empty store, and the operations a history
  has created for one record, in creation order.  These two definitions are the
  vocabulary of the statements about reachable tracker states.
\<close>

datatype TrackerCall =
    Add string ActionType Status string nat
  | Remove string string
  | Clear string

fun applyCall :: "PendingOpsState \<Rightarrow> TrackerCall \<Rightarrow> PendingOpsState" where
  "applyCall st (Add recordId action prevStatus operationId now) =
     addOperation st recordId action prevStatus operationId now"
| "applyCall st (Remove operationId recordId) = removeOperation st operationId recordId"
| "applyCall st (Clear recordId) = clearOperations st recordId"

definition runCalls :: "TrackerCall list \<Rightarrow> PendingOpsState" where
  "runCalls calls = foldl applyCall emptyStore calls"

fun createdOps :: "TrackerCall list \<Rightarrow> string \<Rightarrow> PendingOperation list" where
  "createdOps [] rid = []"
| "createdOps (Add recordId action prevStatus operationId now # cs) rid =
     (if recordId = rid
      then \<lparr>id_op = operationId, recordId_op = recordId, action_op = action,
            previousStatus = prevStatus, timestamp = now\<rparr> # createdOps cs rid
      else createdOps cs rid)"
| "createdOps (Remove operationId recordId # cs) rid = createdOps cs rid"
| "createdOps (Clear recordId # cs) rid = createdOps cs rid"

definition noEmptyLog :: "PendingOpsState \<Rightarrow> bool" where
  "noEmptyLog st = (\<forall>k. operations st k \<noteq> Some [])"

section \<open>Backing call (mockApi)\<close>

record MutationParams =
  recordId :: string
  action :: ActionType
  blockReason_arg :: "string option"

record BatchMutationParams =
  recordIds :: "string list"
  action_b :: ActionType
  blockReason_b :: "string option"

record FailedEntry =
  recordId_f :: string
  error_f :: string

record BatchResult =
  successful :: "ContentRecord list"
  failed :: "FailedEntry list"

text \<open>\<open>ApiError\<close>: an \<open>Error\<close> with a message and a code.\<close>

record ApiError =
  message :: string
  code :: string

text \<open>The string a template literal prints for a value of the two unions.\<close>

fun actionName :: "ActionType \<Rightarrow> string" where
  "actionName review = ''review''"
| "actionName approve = ''approve''"
| "actionName publish = ''publish''"
| "actionName block = ''block''"

fun statusName :: "Status \<Rightarrow> string" where
  "statusName Queued = ''Queued''"
| "statusName InReview = ''InReview''"
| "statusName Approved = ''Approved''"
| "statusName Published = ''Published''"
| "statusName Blocked = ''Blocked''"

text \<open>\<open>Array.prototype.findIndex\<close>, with \<open>-1\<close> as \<open>None\<close>.\<close>

fun findIndex :: "('a \<Rightarrow> bool) \<Rightarrow> 'a list \<Rightarrow> nat option" where
  "findIndex P [] = None"
| "findIndex P (x # xs) = (if P x then Some 0 else map_option Suc (findIndex P xs))"

text \<open>
  \<open>initializeStore\<close> fills the module variable \<open>recordsStore\<close> from
  \<open>getMockRecords()\<close> when it is empty; the generated records are an argument.
\<close>

definition initializeStore :: "ContentRecord list \<Rightarrow> ContentRecord list \<Rightarrow> ContentRecord list" where
  "initializeStore mockRecords recordsStore =
    (if length recordsStore = 0 then mockRecords else recordsStore)"

definition invalidTransitionMessage :: "ActionType \<Rightarrow> Status \<Rightarrow> string" where
  "invalidTransitionMessage a s =
    ''Invalid transition: Cannot '' @ actionName a @ '' a record with status '' @
    [CHR 0x22] @ statusName s @ [CHR 0x22]"

text \<open>
  \<open>mockApi.updateRecord\<close>.  The latency only orders concurrent calls and is dealt with
  where calls are concurrent; \<open>shouldFail()\<close> (a random draw) and
  \<open>new Date().toISOString()\<close> are the arguments \<open>fails\<close> and \<open>now\<close>.  The result is
  the new \<open>recordsStore\<close> and either the thrown \<open>ApiError\<close> or the updated record.
\<close>

definition updateRecord ::
  "ContentRecord list \<Rightarrow> ContentRecord list \<Rightarrow> MutationParams \<Rightarrow> bool \<Rightarrow> string
     \<Rightarrow> ContentRecord list \<times> (ApiError + ContentRecord)" where
  "updateRecord mockRecords recordsStore0 params fails now =
    (let recordsStore = initializeStore mockRecords recordsStore0 in
     if fails
     then (recordsStore,
           Inl \<lparr>message = ''Network error: Request failed. Please try again.'',
                code = ''NETWORK_ERROR''\<rparr>)
     else
       (case findIndex (\<lambda>r. id_rec r = recordId params) recordsStore of
          None \<Rightarrow> (recordsStore, Inl \<lparr>message = ''Record not found'', code = ''NOT_FOUND''\<rparr>)
        | Some recordIndex \<Rightarrow>
            (let record = recordsStore ! recordIndex in
             case getNextStatus (status record) (action params) of
               None \<Rightarrow>
                 (recordsStore,
                  Inl \<lparr>message = invalidTransitionMessage (action params) (status record),
                       code = ''INVALID_TRANSITION''\<rparr>)
             | Some nextStatus \<Rightarrow>
                 (let updatedRecord = record
                        \<lparr>status := nextStatus,
                         updatedAt := now,
                         blockReason := (if action params = block
                                         then blockReason_arg params
                                         else blockReason record)\<rparr>
                  in (recordsStore[recordIndex := updatedRecord], Inr updatedRecord)))))"

text \<open>
  \<open>mockApi.batchUpdate\<close> starts one \<open>updateRecord\<close> per identity; each waits for its
  own random latency and then runs to its end without interruption, and its
  continuation pushes onto \<open>results\<close> before the next timer fires.  So the calls take
  effect in the order of their latencies, calls of equal latency in the order they
  were issued.  The draws of the \<open>i\<close>-th call are \<open>sim i\<close>.
\<close>

record CallSim =
  latency :: nat
  shouldFail :: bool
  isoNow :: string

definition completionOrder :: "(nat \<Rightarrow> CallSim) \<Rightarrow> nat \<Rightarrow> nat list" where
  "completionOrder sim n = sort_key (\<lambda>i. latency (sim i)) [0..<n]"

fun settleCalls ::
  "ContentRecord list \<Rightarrow> BatchMutationParams \<Rightarrow> (nat \<Rightarrow> CallSim) \<Rightarrow> nat list
     \<Rightarrow> ContentRecord list \<times> BatchResult \<Rightarrow> ContentRecord list \<times> BatchResult" where
  "settleCalls mockRecords params sim [] acc = acc"
| "settleCalls mockRecords params sim (i # is) (recordsStore, results) =
    (let rid = recordIds params ! i in
     case updateRecord mockRecords recordsStore
            \<lparr>recordId = rid, action = action_b params, blockReason_arg = blockReason_b params\<rparr>
            (shouldFail (sim i)) (isoNow (sim i)) of
       (recordsStore', Inr record) \<Rightarrow>
         settleCalls mockRecords params sim is
           (recordsStore', results\<lparr>successful := successful results @ [record]\<rparr>)
     | (recordsStore', Inl err) \<Rightarrow>
         settleCalls mockRecords params sim is
           (recordsStore',
            results\<lparr>failed := failed results @ [\<lparr>recordId_f = rid, error_f = message err\<rparr>]\<rparr>))"

definition batchUpdate ::
  "ContentRecord list \<Rightarrow> ContentRecord list \<Rightarrow> BatchMutationParams \<Rightarrow> (nat \<Rightarrow> CallSim)
     \<Rightarrow> ContentRecord list \<times> BatchResult" where
  "batchUpdate mockRecords recordsStore0 params sim =
    settleCalls mockRecords params sim
      (completionOrder sim (length (recordIds params)))
      (initializeStore mockRecords recordsStore0, \<lparr>successful = [], failed = []\<rparr>)"

section \<open>Shared state: query caches, tracker, server store, notifications\<close>

text \<open>
  \<open>queryClient.getQueriesData({queryKey: recordKeys.lists()})\<close> is the list of the
  list queries, each a key with its data or \<open>undefined\<close>; the key (the filters) is
  kept as a string.  \<open>setQueriesData\<close> with an updater that maps the records runs the
  updater on every query that has data and leaves the others alone.
\<close>

type_synonym QueriesData = "(string \<times> ContentRecord list option) list"

definition setQueriesData :: "QueriesData \<Rightarrow> (ContentRecord \<Rightarrow> ContentRecord) \<Rightarrow> QueriesData" where
  "setQueriesData queryCaches f =
    map (\<lambda>(key, old). (key, case old of None \<Rightarrow> None | Some rs \<Rightarrow> Some (map f rs))) queryCaches"

text \<open>
  The loop of \<open>onMutate\<close> that finds the record in any cache: the first query with
  data that holds a record of that identity gives the record.
\<close>

fun findRecord :: "QueriesData \<Rightarrow> string \<Rightarrow> ContentRecord option" where
  "findRecord [] rid = None"
| "findRecord ((key, data) # queryCaches) rid =
    (case data of
       None \<Rightarrow> findRecord queryCaches rid
     | Some rs \<Rightarrow>
         (case List.find (\<lambda>r. id_rec r = rid) rs of
            Some r \<Rightarrow> Some r
          | None \<Rightarrow> findRecord queryCaches rid))"

datatype Toast =
    toast_error string string
  | toast_success string string
  | toast_warning string string

record World =
  queryCaches :: QueriesData
  pendingOps :: PendingOpsState
  recordsStore :: "ContentRecord list"
  toasts :: "Toast list"

text \<open>What a thrown value is: a plain \<open>Error\<close> with its message, or an \<open>ApiError\<close>.\<close>

datatype Failure = Error string | ApiFailure ApiError

section \<open>Single record mutation (useRecordMutation)\<close>

record MutationContext =
  previousRecord :: ContentRecord
  operationId :: string

text \<open>
  \<open>onMutate\<close>.  \<open>cancelQueries\<close> stops refetches and writes no data.  The identity
  from \<open>nanoid()\<close>, \<open>Date.now()\<close> and \<open>new Date().toISOString()\<close> are the arguments
  \<open>opId\<close>, \<open>ts\<close> and \<open>now\<close>.  The result is the state left behind together with
  either the thrown error or the returned context; a throw keeps what was written
  before it.
\<close>

definition useRecordMutation_onMutate ::
  "World \<Rightarrow> MutationParams \<Rightarrow> string \<Rightarrow> nat \<Rightarrow> string \<Rightarrow> World \<times> (Failure + MutationContext)" where
  "useRecordMutation_onMutate w variables opId ts now =
    (case findRecord (queryCaches w) (recordId variables) of
       None \<Rightarrow> (w, Inl (Error ''Record not found''))
     | Some prev \<Rightarrow>
         (let w1 = w\<lparr>pendingOps :=
                      addOperation (pendingOps w) (recordId variables) (action variables)
                        (status prev) opId ts\<rparr>
          in case getNextStatus (status prev) (action variables) of
               None \<Rightarrow> (w1, Inl (Error ''Invalid transition''))
             | Some nextStatus \<Rightarrow>
                 (w1\<lparr>queryCaches :=
                       setQueriesData (queryCaches w1)
                         (\<lambda>r. if id_rec r = recordId variables
                              then r\<lparr>status := nextStatus,
                                     updatedAt := now,
                                     blockReason := (case blockReason_arg variables of
                                                       Some b \<Rightarrow> Some b
                                                     | None \<Rightarrow> blockReason r)\<rparr>
                              else r)\<rparr>,
                  Inr \<lparr>previousRecord = prev, operationId = opId\<rparr>)))"

text \<open>
  \<open>onError\<close>.  The context is \<open>undefined\<close> when \<open>onMutate\<close> threw.  An object is
  truthy, a string is truthy when it is not empty.
\<close>

definition useRecordMutation_onError :: "World \<Rightarrow> MutationParams \<Rightarrow> MutationContext option \<Rightarrow> World" where
  "useRecordMutation_onError w variables context =
    (let w1 = (case context of
                 Some c \<Rightarrow>
                   w\<lparr>queryCaches :=
                       setQueriesData (queryCaches w)
                         (\<lambda>r. if id_rec r = recordId variables then previousRecord c else r)\<rparr>
               | None \<Rightarrow> w);
         w2 = (case context of
                 Some c \<Rightarrow>
                   if operationId c \<noteq> []
                   then w1\<lparr>pendingOps :=
                             removeOperation (pendingOps w1) (operationId c) (recordId variables)\<rparr>
                   else w1
               | None \<Rightarrow> w1)
     in w2\<lparr>toasts := toasts w2 @
              [toast_error (''Failed to '' @ actionName (action variables))
                 ''The action could not be completed. Please try again.'']\<rparr>)"

fun actionLabels :: "ActionType \<Rightarrow> string" where
  "actionLabels review = ''Started review''"
| "actionLabels approve = ''Approved''"
| "actionLabels publish = ''Published''"
| "actionLabels block = ''Blocked''"

definition useRecordMutation_onSuccess :: "World \<Rightarrow> MutationParams \<Rightarrow> MutationContext option \<Rightarrow> World" where
  "useRecordMutation_onSuccess w variables context =
    (let w1 = (case context of
                 Some c \<Rightarrow>
                   if operationId c \<noteq> []
                   then w\<lparr>pendingOps :=
                            removeOperation (pendingOps w) (operationId c) (recordId variables)\<rparr>
                   else w
               | None \<Rightarrow> w)
     in w1\<lparr>toasts := toasts w1 @
              [toast_success (actionLabels (action variables))
                 (''Record successfully '' @ actionName (action variables) @ ''ed.'')]\<rparr>)"

text \<open>
  The life cycle that \<open>useMutation\<close> gives the three callbacks: \<open>onMutate\<close> runs
  first; when it throws, \<open>onError\<close> runs with an undefined context and the backing
  call is never made; otherwise the backing call \<open>mockApi.updateRecord\<close> is made and,
  when it settles, \<open>onError\<close> or \<open>onSuccess\<close> runs with the context.  Other mutations
  may run between the two halves, so they are two functions; \<open>mutate\<close> is one
  mutation with nothing in between.
\<close>

definition mutate_begin ::
  "World \<Rightarrow> MutationParams \<Rightarrow> string \<Rightarrow> nat \<Rightarrow> string \<Rightarrow> World \<times> (Failure + MutationContext)" where
  "mutate_begin w variables opId ts now =
    (case useRecordMutation_onMutate w variables opId ts now of
       (w1, Inl e) \<Rightarrow> (useRecordMutation_onError w1 variables None, Inl e)
     | (w1, Inr c) \<Rightarrow> (w1, Inr c))"

definition mutate_settle ::
  "ContentRecord list \<Rightarrow> World \<Rightarrow> MutationParams \<Rightarrow> MutationContext \<Rightarrow> bool \<Rightarrow> string
     \<Rightarrow> World \<times> (Failure + ContentRecord)" where
  "mutate_settle mockRecords w variables c fails now =
    (case updateRecord mockRecords (recordsStore w) variables fails now of
       (rs, Inl err) \<Rightarrow>
         (useRecordMutation_onError (w\<lparr>recordsStore := rs\<rparr>) variables (Some c),
          Inl (ApiFailure err))
     | (rs, Inr r) \<Rightarrow>
         (useRecordMutation_onSuccess (w\<lparr>recordsStore := rs\<rparr>) variables (Some c), Inr r))"

definition mutate ::
  "ContentRecord list \<Rightarrow> World \<Rightarrow> MutationParams \<Rightarrow> string \<Rightarrow> nat \<Rightarrow> string \<Rightarrow> bool \<Rightarrow> string
     \<Rightarrow> World \<times> (Failure + ContentRecord)" where
  "mutate mockRecords w variables opId ts now fails now' =
    (case mutate_begin w variables opId ts now of
       (w1, Inl e) \<Rightarrow> (w1, Inl e)
     | (w1, Inr c) \<Rightarrow> mutate_settle mockRecords w1 variables c fails now')"

section \<open>Batch mutation (useBatchMutation)\<close>

text \<open>
  The two \<open>Map\<close>s of the batch context are association lists in insertion order;
  a key is set only when \<open>previousRecords\<close> does not have it, so no key repeats.
\<close>

record BatchContext =
  previousRecords :: "(string \<times> ContentRecord) list"
  operationIds :: "(string \<times> string) list"

text \<open>
  The inner loop of \<open>onMutate\<close> over \<open>variables.recordIds\<close> for the data of one
  query.  The \<open>n\<close>-th call of \<open>addOperation\<close> draws \<open>nanoid n\<close> and \<open>dateNow n\<close>;
  \<open>n\<close> is the number of operations added so far.
\<close>

fun scanIds ::
  "ContentRecord list \<Rightarrow> ActionType \<Rightarrow> (nat \<Rightarrow> string) \<Rightarrow> (nat \<Rightarrow> nat) \<Rightarrow> string list
     \<Rightarrow> BatchContext \<times> PendingOpsState \<Rightarrow> BatchContext \<times> PendingOpsState" where
  "scanIds data a nanoid dateNow [] acc = acc"
| "scanIds data a nanoid dateNow (rid # rids) (c, st) =
    (case List.find (\<lambda>r. id_rec r = rid) data of
       Some r \<Rightarrow>
         if map_of (previousRecords c) rid = None
         then (let n = length (operationIds c); opId = nanoid n
               in scanIds data a nanoid dateNow rids
                    (c\<lparr>previousRecords := previousRecords c @ [(rid, r)],
                       operationIds := operationIds c @ [(rid, opId)]\<rparr>,
                     addOperation st rid a (status r) opId (dateNow n)))
         else scanIds data a nanoid dateNow rids (c, st)
     | None \<Rightarrow> scanIds data a nanoid dateNow rids (c, st))"

fun scanCaches ::
  "QueriesData \<Rightarrow> ActionType \<Rightarrow> (nat \<Rightarrow> string) \<Rightarrow> (nat \<Rightarrow> nat) \<Rightarrow> string list
     \<Rightarrow> BatchContext \<times> PendingOpsState \<Rightarrow> BatchContext \<times> PendingOpsState" where
  "scanCaches [] a nanoid dateNow rids acc = acc"
| "scanCaches ((key, data) # qs) a nanoid dateNow rids acc =
    (case data of
       None \<Rightarrow> scanCaches qs a nanoid dateNow rids acc
     | Some rs \<Rightarrow> scanCaches qs a nanoid dateNow rids (scanIds rs a nanoid dateNow rids acc))"

definition useBatchMutation_onMutate ::
  "World \<Rightarrow> BatchMutationParams \<Rightarrow> (nat \<Rightarrow> string) \<Rightarrow> (nat \<Rightarrow> nat) \<Rightarrow> string
     \<Rightarrow> World \<times> BatchContext" where
  "useBatchMutation_onMutate w variables nanoid dateNow now =
    (case scanCaches (queryCaches w) (action_b variables) nanoid dateNow (recordIds variables)
            (\<lparr>previousRecords = [], operationIds = []\<rparr>, pendingOps w) of
       (c, st) \<Rightarrow>
         (w\<lparr>pendingOps := st,
            queryCaches :=
              setQueriesData (queryCaches w)
                (\<lambda>r. if List.member (recordIds variables) (id_rec r)
                     then (case getNextStatus (status r) (action_b variables) of
                             Some nextStatus \<Rightarrow>
                               r\<lparr>status := nextStatus,
                                  updatedAt := now,
                                  blockReason := (case blockReason_b variables of
                                                    Some b \<Rightarrow> Some b
                                                  | None \<Rightarrow> blockReason r)\<rparr>
                           | None \<Rightarrow> r)
                     else r)\<rparr>,
          c))"

text \<open>Decimal digits of a count, as a template literal prints it.\<close>

fun showNat :: "nat \<Rightarrow> string" where
  "showNat n =
    (if n < 10 then [''0123456789'' ! n]
     else showNat (n div 10) @ [''0123456789'' ! (n mod 10)])"

declare showNat.simps [simp del]

fun actionRequires :: "ActionType \<Rightarrow> string" where
  "actionRequires review = ''Queued''"
| "actionRequires approve = ''InReview''"
| "actionRequires publish = ''Approved''"
| "actionRequires block = ''any status''"

text \<open>
  \<open>onSuccess\<close> of the batch hook: every operation of the context is removed, then
  the result is classified by the two counts; when both are zero nothing is shown.
\<close>

definition useBatchMutation_onSuccess ::
  "World \<Rightarrow> BatchResult \<Rightarrow> BatchMutationParams \<Rightarrow> BatchContext option \<Rightarrow> World" where
  "useBatchMutation_onSuccess w result variables context =
    (let w1 = (case context of
                 Some c \<Rightarrow>
                   w\<lparr>pendingOps :=
                       foldl (\<lambda>st (rid, opId). removeOperation st opId rid) (pendingOps w)
                         (operationIds c)\<rparr>
               | None \<Rightarrow> w);
         successCount = length (successful result);
         failCount = length (failed result);
         a = actionName (action_b variables)
     in if failCount = 0 \<and> successCount > 0
        then w1\<lparr>toasts := toasts w1 @
                   [toast_success (showNat successCount @ '' items '' @ a @ ''ed'')
                      ''All actions completed successfully.'']\<rparr>
        else if successCount = 0 \<and> failCount > 0
        then w1\<lparr>toasts := toasts w1 @
                   [toast_error (''Cannot '' @ a)
                      (a @ '' requires records in '' @ [CHR 0x22] @
                       actionRequires (action_b variables) @ [CHR 0x22] @ '' status.'')]\<rparr>
        else if failCount > 0
        then w1\<lparr>toasts := toasts w1 @
                   [toast_warning ''Partially completed''
                      (showNat successCount @ '' succeeded, '' @ showNat failCount @
                       '' failed.'')]\<rparr>
        else w1)"

text \<open>
  The life cycle of one batch: \<open>onMutate\<close> of the batch hook never throws and
  \<open>mockApi.batchUpdate\<close> never rejects (it catches every error of its calls), so
  \<open>onSuccess\<close> always runs and the caller receives the \<open>BatchResult\<close>.
\<close>

definition mutateMany ::
  "ContentRecord list \<Rightarrow> World \<Rightarrow> BatchMutationParams \<Rightarrow> (nat \<Rightarrow> string) \<Rightarrow> (nat \<Rightarrow> nat)
     \<Rightarrow> string \<Rightarrow> (nat \<Rightarrow> CallSim) \<Rightarrow> World \<times> BatchResult" where
  "mutateMany mockRecords w variables nanoid dateNow now sim =
    (case useBatchMutation_onMutate w variables nanoid dateNow now of
       (w1, c) \<Rightarrow>
         (case batchUpdate mockRecords (recordsStore w1) variables sim of
            (rs, result) \<Rightarrow>
              (useBatchMutation_onSuccess (w1\<lparr>recordsStore := rs\<rparr>) result variables (Some c),
               result)))"

section \<open>Concrete inputs\<close>

text \<open>
  A record of a given identity and status with fixed other fields, and the state
  that holds one list query and a server store with the same records, an empty
  tracker and no notification.  They are the inputs at which the model is run.
\<close>

definition entity :: "string \<Rightarrow> Status \<Rightarrow> ContentRecord" where
  "entity i s =
    \<lparr>id_rec = i, prompt = ''prompt'', engine = ChatGPT, status = s, impact = High,
     safetyFlags = [], updatedAt = ''t0'', blockReason = None\<rparr>"

definition worldOf :: "ContentRecord list \<Rightarrow> World" where
  "worldOf rs =
    \<lparr>queryCaches = [(''list'', Some rs)], pendingOps = emptyStore, recordsStore = rs,
     toasts = []\<rparr>"

section \<open>The workflow machine\<close>

lemma getNextStatus_eq: "getNextStatus s a = nextState_spec s a"
  by (cases s; cases a; simp add: getNextStatus_def TRANSITIONS_def fromMatches_def)

text \<open>
  Claim C2.  For every state and action, \<open>getNextStatus\<close> returns the target the
  transition table lists for the pair and \<open>None\<close> (rejected) for every pair the
  table does not list: review of Queued gives InReview, approve of InReview gives
  Approved, publish of Approved gives Published, block of Queued, InReview, Approved
  or Published gives Blocked, and for instance approve of Blocked, publish of Queued,
  review of Published and block of Blocked are rejected.
\<close>

theorem getNextStatus_transition_table:
  "getNextStatus s a = nextState_spec s a
   \<and> getNextStatus Queued review = Some InReview
   \<and> getNextStatus InReview approve = Some Approved
   \<and> getNextStatus Approved publish = Some Published
   \<and> getNextStatus Queued block = Some Blocked
   \<and> getNextStatus InReview block = Some Blocked
   \<and> getNextStatus Approved block = Some Blocked
   \<and> getNextStatus Published block = Some Blocked
   \<and> getNextStatus Blocked approve = None
   \<and> getNextStatus Queued publish = None
   \<and> getNextStatus Published review = None
   \<and> getNextStatus Blocked block = None"
proof (intro conjI)
  show "getNextStatus s a = nextState_spec s a"
    by (cases s; cases a) (simp_all add: getNextStatus_def TRANSITIONS_def fromMatches_def)
qed (simp_all add: getNextStatus_def TRANSITIONS_def fromMatches_def)

section \<open>The tracker\<close>

lemma getOperations_add:
  "getOperations (addOperation st r a p oid ts) k =
     (if k = r then getOperations st r @ [\<lparr>id_op = oid, recordId_op = r, action_op = a,
                       previousStatus = p, timestamp = ts\<rparr>] else getOperations st k)"
  by (simp add: getOperations_def addOperation_def Let_def)

lemma getOperations_remove:
  "getOperations (removeOperation st oid r) k =
     (if k = r then filter (\<lambda>op. id_op op \<noteq> oid) (getOperations st r) else getOperations st k)"
  by (simp add: getOperations_def removeOperation_def Let_def)

lemma getOperations_clear:
  "getOperations (clearOperations st r) k = (if k = r then [] else getOperations st k)"
  by (simp add: getOperations_def clearOperations_def)

lemma noEmptyLog_empty: "noEmptyLog emptyStore"
  by (simp add: noEmptyLog_def emptyStore_def)

lemma noEmptyLog_add: "noEmptyLog st \<Longrightarrow> noEmptyLog (addOperation st r a p oid ts)"
  by (simp add: noEmptyLog_def addOperation_def Let_def)

lemma noEmptyLog_remove: "noEmptyLog st \<Longrightarrow> noEmptyLog (removeOperation st oid r)"
  by (simp add: noEmptyLog_def removeOperation_def Let_def)

lemma noEmptyLog_clear: "noEmptyLog st \<Longrightarrow> noEmptyLog (clearOperations st r)"
  by (simp add: noEmptyLog_def clearOperations_def)

lemma noEmptyLog_applyCall: "noEmptyLog st \<Longrightarrow> noEmptyLog (applyCall st c)"
  by (cases c) (simp_all add: noEmptyLog_add noEmptyLog_remove noEmptyLog_clear)

lemma noEmptyLog_foldl: "noEmptyLog st \<Longrightarrow> noEmptyLog (foldl applyCall st calls)"
  by (induction calls arbitrary: st) (simp_all add: noEmptyLog_applyCall)

lemma noEmptyLog_runCalls: "noEmptyLog (runCalls calls)"
  by (simp add: runCalls_def noEmptyLog_foldl noEmptyLog_empty)

lemma hasPendingOps_iff: "hasPendingOps st rid \<longleftrightarrow> getOperations st rid \<noteq> []"
  by (simp add: hasPendingOps_def getOperations_def split: option.splits)

lemma getPendingCount_eq: "getPendingCount st rid = length (getOperations st rid)"
  by (simp add: getPendingCount_def getOperations_def split: option.splits)

lemma getLatestAction_eq:
  "getLatestAction st rid =
     (if getOperations st rid = [] then None else Some (action_op (last (getOperations st rid))))"
  by (simp add: getLatestAction_def getOperations_def last_conv_nth split: option.splits)

lemma createdOps_append: "createdOps (cs @ ds) rid = createdOps cs rid @ createdOps ds rid"
  by (induction cs rid rule: createdOps.induct) simp_all

lemma runCalls_snoc: "runCalls (cs @ [c]) = applyCall (runCalls cs) c"
  by (simp add: runCalls_def)

lemma subseq_filter_trans: "subseq xs ys \<Longrightarrow> subseq (filter P xs) ys"
  using subseq_filter_left [of P xs] by (rule subseq_order.trans)

lemma subseq_created: "subseq (getOperations (runCalls calls) rid) (createdOps calls rid)"
proof (induction calls rule: rev_induct)
  case Nil
  show ?case by (simp add: runCalls_def emptyStore_def getOperations_def)
next
  case (snoc c cs)
  show ?case
  proof (cases c)
    case (Add r a p oid ts)
    with snoc show ?thesis
      by (auto simp add: runCalls_snoc createdOps_append getOperations_add
            intro: list_emb_append_mono)
  next
    case (Remove oid r)
    with snoc show ?thesis
      by (auto simp add: runCalls_snoc createdOps_append getOperations_remove
            intro: subseq_filter_trans)
  next
    case (Clear r)
    with snoc show ?thesis
      by (simp add: runCalls_snoc createdOps_append getOperations_clear)
  qed
qed

lemmas tracker_eval =
  runCalls_def emptyStore_def addOperation_def removeOperation_def clearOperations_def
  getOperations_def hasPendingOps_def getLatestAction_def getPendingCount_def Let_def

text \<open>
  Claim C7.  In every tracker state reached by a history of calls, the operations
  pending for a record are a subsequence of the operations created for it, in
  creation order, and \<open>getLatestAction\<close> returns the action of the last of them,
  that is of the most recently created operation that is still pending, whatever
  earlier operations are pending beside it; it returns \<open>None\<close> when nothing is
  pending.  Right after \<open>addOperation\<close> the action just added is the one reported,
  in any state.
\<close>

theorem getLatestAction_most_recent:
  "subseq (getOperations (runCalls calls) rid) (createdOps calls rid)
   \<and> getLatestAction (runCalls calls) rid =
       (if getOperations (runCalls calls) rid = [] then None
        else Some (action_op (last (getOperations (runCalls calls) rid))))
   \<and> (hasPendingOps (runCalls calls) rid \<longleftrightarrow> getOperations (runCalls calls) rid \<noteq> [])
   \<and> getLatestAction (addOperation st rid a p oid ts) rid = Some a"
proof (intro conjI)
  show "subseq (getOperations (runCalls calls) rid) (createdOps calls rid)"
    by (rule subseq_created)
  show "getLatestAction (runCalls calls) rid =
       (if getOperations (runCalls calls) rid = [] then None
        else Some (action_op (last (getOperations (runCalls calls) rid))))"
    by (rule getLatestAction_eq)
  show "hasPendingOps (runCalls calls) rid \<longleftrightarrow> getOperations (runCalls calls) rid \<noteq> []"
    by (rule hasPendingOps_iff)
  have "getOperations (addOperation st rid a p oid ts) rid \<noteq> []"
    and "last (getOperations (addOperation st rid a p oid ts) rid) =
      \<lparr>id_op = oid, recordId_op = rid, action_op = a, previousStatus = p, timestamp = ts\<rparr>"
    by (simp_all add: getOperations_add)
  then show "getLatestAction (addOperation st rid a p oid ts) rid = Some a"
    by (simp add: getLatestAction_eq)
qed

theorem getLatestAction_most_recent_witness:
  "getLatestAction
     (runCalls [Add ''r1'' approve InReview ''op1'' 1, Add ''r1'' block Approved ''op2'' 2,
                Add ''r1'' publish Approved ''op3'' 3, Remove ''op3'' ''r1'']) ''r1'' = Some block
   \<and> getLatestAction (runCalls [Add ''r1'' approve InReview ''op1'' 1, Remove ''op1'' ''r1''])
        ''r1'' = None"
  using getLatestAction_most_recent
      [of "[Add ''r1'' approve InReview ''op1'' 1, Add ''r1'' block Approved ''op2'' 2,
            Add ''r1'' publish Approved ''op3'' 3, Remove ''op3'' ''r1'']" "''r1''"]
    getLatestAction_most_recent
      [of "[Add ''r1'' approve InReview ''op1'' 1, Remove ''op1'' ''r1'']" "''r1''"]
  by (simp add: tracker_eval)

text \<open>
  Claim C8.  \<open>removeOperation\<close> with an operation identity and a record identity
  removes the operations of that identity from the log of the record and keeps every
  other operation of the record, in order; the logs of the other records are not
  touched; the record has pending operations afterwards exactly when an operation of
  another identity was pending for it; and when no operation of that identity is
  pending for the record, the store is left as it was.  The store is one in which no
  record is mapped to an empty log, as every reachable store is.
\<close>

theorem removeOperation_exact:
  assumes "noEmptyLog st"
  shows "getOperations (removeOperation st oid rid) rid =
           filter (\<lambda>op. id_op op \<noteq> oid) (getOperations st rid)
         \<and> (\<forall>k. k \<noteq> rid \<longrightarrow> operations (removeOperation st oid rid) k = operations st k)
         \<and> (hasPendingOps (removeOperation st oid rid) rid \<longleftrightarrow>
              (\<exists>op \<in> set (getOperations st rid). id_op op \<noteq> oid))
         \<and> ((\<forall>op \<in> set (getOperations st rid). id_op op \<noteq> oid) \<longrightarrow>
              removeOperation st oid rid = st)
         \<and> noEmptyLog (removeOperation st oid rid)"
proof -
  have keep: "removeOperation st oid rid = st"
    if none: "\<forall>op \<in> set (getOperations st rid). id_op op \<noteq> oid"
  proof -
    from none have f: "filter (\<lambda>op. id_op op \<noteq> oid) (getOperations st rid) = getOperations st rid"
      by simp
    have "operations (removeOperation st oid rid) = operations st"
    proof (cases "operations st rid")
      case None
      then have "(operations st)(rid := None) = operations st"
        by (metis fun_upd_triv)
      with None show ?thesis
        by (simp add: removeOperation_def getOperations_def Let_def)
    next
      case (Some ops)
      with assms have "ops \<noteq> []" by (auto simp add: noEmptyLog_def)
      with Some f show ?thesis
        by (simp add: removeOperation_def getOperations_def Let_def fun_upd_idem)
    qed
    then show ?thesis by simp
  qed
  have others: "\<forall>k. k \<noteq> rid \<longrightarrow> operations (removeOperation st oid rid) k = operations st k"
    by (simp add: removeOperation_def Let_def)
  have pend: "hasPendingOps (removeOperation st oid rid) rid \<longleftrightarrow>
              (\<exists>op \<in> set (getOperations st rid). id_op op \<noteq> oid)"
    by (simp add: hasPendingOps_iff getOperations_remove filter_empty_conv)
  from keep others pend assms show ?thesis
    by (simp add: getOperations_remove noEmptyLog_remove)
qed

theorem removeOperation_exact_witness:
  "noEmptyLog (runCalls [Add ''r1'' approve InReview ''op1'' 1, Add ''r1'' block Approved ''op2'' 2])
   \<and> getOperations
        (removeOperation
           (runCalls [Add ''r1'' approve InReview ''op1'' 1, Add ''r1'' block Approved ''op2'' 2])
           ''op1'' ''r1'') ''r1''
       = [\<lparr>id_op = ''op2'', recordId_op = ''r1'', action_op = block, previousStatus = Approved,
           timestamp = 2\<rparr>]
   \<and> removeOperation
        (runCalls [Add ''r1'' approve InReview ''op1'' 1, Add ''r1'' block Approved ''op2'' 2])
        ''op9'' ''r1''
       = runCalls [Add ''r1'' approve InReview ''op1'' 1, Add ''r1'' block Approved ''op2'' 2]"
proof -
  let ?st = "runCalls [Add ''r1'' approve InReview ''op1'' 1, Add ''r1'' block Approved ''op2'' 2]"
  have inv: "noEmptyLog ?st"
    by (simp add: noEmptyLog_def tracker_eval)
  have ops: "getOperations ?st ''r1'' =
      [\<lparr>id_op = ''op1'', recordId_op = ''r1'', action_op = approve, previousStatus = InReview,
        timestamp = 1\<rparr>,
       \<lparr>id_op = ''op2'', recordId_op = ''r1'', action_op = block, previousStatus = Approved,
        timestamp = 2\<rparr>]"
    by (simp add: tracker_eval)
  from removeOperation_exact [OF inv, of "''op1''" "''r1''"]
       removeOperation_exact [OF inv, of "''op9''" "''r1''"] inv ops
  show ?thesis by simp
qed

text \<open>
  Claim C10.  After any history of \<open>addOperation\<close>, \<open>removeOperation\<close> and
  \<open>clearOperations\<close> calls from the empty store, for every record
  \<open>hasPendingOps\<close> holds exactly when \<open>getPendingCount\<close> is positive, which holds
  exactly when \<open>getLatestAction\<close> is not \<open>None\<close>; the map never holds an empty
  log; and each of the three operations keeps that invariant.
\<close>

theorem tracker_accessors_consistent:
  "(hasPendingOps (runCalls calls) rid \<longleftrightarrow> getPendingCount (runCalls calls) rid > 0)
   \<and> (getPendingCount (runCalls calls) rid > 0 \<longleftrightarrow> getLatestAction (runCalls calls) rid \<noteq> None)
   \<and> noEmptyLog (runCalls calls)
   \<and> noEmptyLog emptyStore
   \<and> (noEmptyLog st \<longrightarrow>
        noEmptyLog (addOperation st r a p oid ts)
        \<and> noEmptyLog (removeOperation st oid r)
        \<and> noEmptyLog (clearOperations st r))"
  by (simp add: hasPendingOps_iff getPendingCount_eq getLatestAction_eq noEmptyLog_runCalls
        noEmptyLog_empty noEmptyLog_add noEmptyLog_remove noEmptyLog_clear)

theorem tracker_accessors_consistent_witness:
  "noEmptyLog (runCalls [Add ''r1'' approve InReview ''op1'' 1, Remove ''op1'' ''r1''])
   \<and> noEmptyLog (removeOperation
        (runCalls [Add ''r1'' approve InReview ''op1'' 1, Remove ''op1'' ''r1'']) ''op1'' ''r1'')
   \<and> \<not> hasPendingOps (runCalls [Add ''r1'' approve InReview ''op1'' 1, Remove ''op1'' ''r1'']) ''r1''
   \<and> getPendingCount (runCalls [Add ''r1'' approve InReview ''op1'' 1, Remove ''op1'' ''r1'']) ''r1'' = 0"
  using tracker_accessors_consistent
      [of "[Add ''r1'' approve InReview ''op1'' 1, Remove ''op1'' ''r1'']" "''r1''"
          "runCalls [Add ''r1'' approve InReview ''op1'' 1, Remove ''op1'' ''r1'']"
          "''r1''" approve InReview "''op1''" 1]
  by (simp add: tracker_eval)

section \<open>Query caches\<close>

lemma find_map_ids:
  "(\<And>r. id_rec (f r) = id_rec r) \<Longrightarrow>
   List.find (\<lambda>r. id_rec r = rid) (map f rs) = map_option f (List.find (\<lambda>r. id_rec r = rid) rs)"
  by (induction rs) simp_all

lemma find_id: "List.find (\<lambda>r. id_rec r = rid) rs = Some r \<Longrightarrow> id_rec r = rid"
  by (induction rs) (simp_all split: if_splits)

lemma findRecord_id: "findRecord qs rid = Some r \<Longrightarrow> id_rec r = rid"
  by (induction qs rid rule: findRecord.induct)
     (auto split: option.splits dest: find_id)

lemma findRecord_setQueriesData:
  assumes "\<And>r. id_rec (f r) = id_rec r"
  shows "findRecord (setQueriesData qs f) rid = map_option f (findRecord qs rid)"
proof (induction qs rid rule: findRecord.induct)
  case (1 rid)
  show ?case by (simp add: setQueriesData_def)
next
  case (2 key data qs rid)
  then show ?case
    using assms
    by (cases data; cases "List.find (\<lambda>r. id_rec r = rid) (the data)")
       (simp_all add: setQueriesData_def find_map_ids)
qed

lemma findRecord_rollback:
  assumes "id_rec prev = rid" and "findRecord qs rid \<noteq> None"
  shows "findRecord (setQueriesData qs (\<lambda>r. if id_rec r = rid then prev else r)) rid = Some prev"
proof -
  from assms(2) obtain r where r: "findRecord qs rid = Some r" by auto
  then have "id_rec r = rid" by (rule findRecord_id)
  moreover have "findRecord (setQueriesData qs (\<lambda>r. if id_rec r = rid then prev else r)) rid
      = map_option (\<lambda>r. if id_rec r = rid then prev else r) (findRecord qs rid)"
    using assms(1) by (intro findRecord_setQueriesData) simp
  ultimately show ?thesis using r by simp
qed

lemma findRecord_optimistic:
  assumes "findRecord qs rid = Some prev"
  shows "findRecord
           (setQueriesData qs
              (\<lambda>r. if id_rec r = rid
                   then r\<lparr>status := nextStatus, updatedAt := now,
                          blockReason := (case reason of
                                            Some b \<Rightarrow> Some b | None \<Rightarrow> blockReason r)\<rparr>
                   else r)) rid
         = Some (prev\<lparr>status := nextStatus, updatedAt := now,
                       blockReason := (case reason of
                                         Some b \<Rightarrow> Some b | None \<Rightarrow> blockReason prev)\<rparr>)"
proof -
  from assms have "id_rec prev = rid" by (rule findRecord_id)
  moreover have "findRecord
           (setQueriesData qs
              (\<lambda>r. if id_rec r = rid
                   then r\<lparr>status := nextStatus, updatedAt := now,
                          blockReason := (case reason of
                                            Some b \<Rightarrow> Some b | None \<Rightarrow> blockReason r)\<rparr>
                   else r)) rid
      = map_option (\<lambda>r. if id_rec r = rid
                   then r\<lparr>status := nextStatus, updatedAt := now,
                          blockReason := (case reason of
                                            Some b \<Rightarrow> Some b | None \<Rightarrow> blockReason r)\<rparr>
                   else r) (findRecord qs rid)"
    by (intro findRecord_setQueriesData) simp
  ultimately show ?thesis using assms by simp
qed

section \<open>Single record mutation\<close>

lemma onMutate_notFound:
  "findRecord (queryCaches w) (recordId v) = None \<Longrightarrow>
   useRecordMutation_onMutate w v opId ts now = (w, Inl (Error ''Record not found''))"
  by (simp add: useRecordMutation_onMutate_def)

lemma onMutate_invalid:
  "findRecord (queryCaches w) (recordId v) = Some prev \<Longrightarrow>
   getNextStatus (status prev) (action v) = None \<Longrightarrow>
   useRecordMutation_onMutate w v opId ts now =
     (w\<lparr>pendingOps := addOperation (pendingOps w) (recordId v) (action v) (status prev) opId ts\<rparr>,
      Inl (Error ''Invalid transition''))"
  by (simp add: useRecordMutation_onMutate_def Let_def)

lemma onMutate_ok:
  "findRecord (queryCaches w) (recordId v) = Some prev \<Longrightarrow>
   getNextStatus (status prev) (action v) = Some nextStatus \<Longrightarrow>
   useRecordMutation_onMutate w v opId ts now =
     (w\<lparr>pendingOps := addOperation (pendingOps w) (recordId v) (action v) (status prev) opId ts,
        queryCaches :=
          setQueriesData (queryCaches w)
            (\<lambda>r. if id_rec r = recordId v
                 then r\<lparr>status := nextStatus, updatedAt := now,
                        blockReason := (case blockReason_arg v of
                                          Some b \<Rightarrow> Some b | None \<Rightarrow> blockReason r)\<rparr>
                 else r)\<rparr>,
      Inr \<lparr>previousRecord = prev, operationId = opId\<rparr>)"
  by (simp add: useRecordMutation_onMutate_def Let_def)

lemma mutate_begin_Inr:
  assumes "mutate_begin w v opId ts now = (w1, Inr c)"
  obtains prev nextStatus where
    "findRecord (queryCaches w) (recordId v) = Some prev"
    "getNextStatus (status prev) (action v) = Some nextStatus"
    "c = \<lparr>previousRecord = prev, operationId = opId\<rparr>"
    "pendingOps w1 = addOperation (pendingOps w) (recordId v) (action v) (status prev) opId ts"
    "queryCaches w1 =
       setQueriesData (queryCaches w)
         (\<lambda>r. if id_rec r = recordId v
              then r\<lparr>status := nextStatus, updatedAt := now,
                     blockReason := (case blockReason_arg v of
                                       Some b \<Rightarrow> Some b | None \<Rightarrow> blockReason r)\<rparr>
              else r)"
    "recordsStore w1 = recordsStore w"
proof (cases "findRecord (queryCaches w) (recordId v)")
  case None
  with assms show ?thesis
    by (simp add: mutate_begin_def onMutate_notFound)
next
  case (Some prev)
  show ?thesis
  proof (cases "getNextStatus (status prev) (action v)")
    case None
    with Some assms show ?thesis
      by (simp add: mutate_begin_def onMutate_invalid)
  next
    case (Some nextStatus)
    with \<open>findRecord (queryCaches w) (recordId v) = Some prev\<close> assms that [of prev nextStatus]
    show ?thesis
      by (auto simp add: mutate_begin_def onMutate_ok)
  qed
qed

lemma mutate_begin_ok:
  assumes "findRecord (queryCaches w) (recordId v) = Some prev"
      and "getNextStatus (status prev) (action v) = Some nextStatus"
  shows "mutate_begin w v opId ts now =
     (w\<lparr>pendingOps := addOperation (pendingOps w) (recordId v) (action v) (status prev) opId ts,
        queryCaches :=
          setQueriesData (queryCaches w)
            (\<lambda>r. if id_rec r = recordId v
                 then r\<lparr>status := nextStatus, updatedAt := now,
                        blockReason := (case blockReason_arg v of
                                          Some b \<Rightarrow> Some b | None \<Rightarrow> blockReason r)\<rparr>
                 else r)\<rparr>,
      Inr \<lparr>previousRecord = prev, operationId = opId\<rparr>)"
  using assms by (simp add: mutate_begin_def onMutate_ok)

lemma onError_context:
  assumes "operationId c \<noteq> []"
  shows "queryCaches (useRecordMutation_onError w v (Some c)) =
           setQueriesData (queryCaches w)
             (\<lambda>r. if id_rec r = recordId v then previousRecord c else r)"
    and "pendingOps (useRecordMutation_onError w v (Some c)) =
           removeOperation (pendingOps w) (operationId c) (recordId v)"
    and "recordsStore (useRecordMutation_onError w v (Some c)) = recordsStore w"
  using assms by (simp_all add: useRecordMutation_onError_def Let_def)

lemma settle_failure:
  assumes "snd (updateRecord mockRecords (recordsStore w) v fails now) = Inl err"
      and "operationId c \<noteq> []"
  shows "snd (mutate_settle mockRecords w v c fails now) = Inl (ApiFailure err)"
    and "queryCaches (fst (mutate_settle mockRecords w v c fails now)) =
           setQueriesData (queryCaches w)
             (\<lambda>r. if id_rec r = recordId v then previousRecord c else r)"
    and "pendingOps (fst (mutate_settle mockRecords w v c fails now)) =
           removeOperation (pendingOps w) (operationId c) (recordId v)"
proof -
  obtain rs where "updateRecord mockRecords (recordsStore w) v fails now = (rs, Inl err)"
    using assms(1) by (cases "updateRecord mockRecords (recordsStore w) v fails now") simp
  then have "mutate_settle mockRecords w v c fails now =
      (useRecordMutation_onError (w\<lparr>recordsStore := rs\<rparr>) v (Some c), Inl (ApiFailure err))"
    by (simp add: mutate_settle_def)
  then show "snd (mutate_settle mockRecords w v c fails now) = Inl (ApiFailure err)"
    and "queryCaches (fst (mutate_settle mockRecords w v c fails now)) =
           setQueriesData (queryCaches w)
             (\<lambda>r. if id_rec r = recordId v then previousRecord c else r)"
    and "pendingOps (fst (mutate_settle mockRecords w v c fails now)) =
           removeOperation (pendingOps w) (operationId c) (recordId v)"
    using assms(2) by (simp_all add: onError_context)
qed

lemma settle_success:
  assumes "mutate_settle mockRecords w v c fails now = (w', Inr r)"
  shows "queryCaches w' = queryCaches w"
proof -
  obtain rs res where u: "updateRecord mockRecords (recordsStore w) v fails now = (rs, res)"
    by (cases "updateRecord mockRecords (recordsStore w) v fails now")
  with assms show ?thesis
    by (cases res) (auto simp add: mutate_settle_def useRecordMutation_onSuccess_def Let_def
          split: option.splits if_splits)
qed

lemma mutate_after_begin:
  "mutate_begin w v opId ts now = (w1, Inr c) \<Longrightarrow>
   mutate mockRecords w v opId ts now fails now' = mutate_settle mockRecords w1 v c fails now'"
  by (simp add: mutate_def)

lemma mutate_begin_cached:
  assumes e: "findRecord (queryCaches w) eid = Some e" "status e = a0"
      and n: "getNextStatus a0 act = Some a1"
  shows "mutate_begin w \<lparr>recordId = eid, action = act, blockReason_arg = reason\<rparr> opId ts now
           = (w1, r1) \<Longrightarrow>
         r1 = Inr \<lparr>previousRecord = e, operationId = opId\<rparr>
         \<and> findRecord (queryCaches w1) eid =
             Some (e\<lparr>status := a1, updatedAt := now,
                     blockReason := (case reason of Some b \<Rightarrow> Some b | None \<Rightarrow> blockReason e)\<rparr>)
         \<and> getOperations (pendingOps w1) eid =
             getOperations (pendingOps w) eid @
               [\<lparr>id_op = opId, recordId_op = eid, action_op = act, previousStatus = a0,
                 timestamp = ts\<rparr>]"
proof -
  assume b: "mutate_begin w \<lparr>recordId = eid, action = act, blockReason_arg = reason\<rparr> opId ts now
           = (w1, r1)"
  let ?v = "\<lparr>recordId = eid, action = act, blockReason_arg = reason\<rparr>"
  have "findRecord (queryCaches w) (recordId ?v) = Some e"
    and "getNextStatus (status e) (action ?v) = Some a1"
    using e n by simp_all
  from mutate_begin_ok [OF this, of opId ts now] b
  have w1: "w1 = w\<lparr>pendingOps := addOperation (pendingOps w) eid act a0 opId ts,
        queryCaches :=
          setQueriesData (queryCaches w)
            (\<lambda>r. if id_rec r = eid
                 then r\<lparr>status := a1, updatedAt := now,
                        blockReason := (case reason of
                                          Some b \<Rightarrow> Some b | None \<Rightarrow> blockReason r)\<rparr>
                 else r)\<rparr>"
    and r1: "r1 = Inr \<lparr>previousRecord = e, operationId = opId\<rparr>"
    using e(2) by (simp_all cong: if_cong)
  from w1 have "findRecord (queryCaches w1) eid =
             Some (e\<lparr>status := a1, updatedAt := now,
                     blockReason := (case reason of Some b \<Rightarrow> Some b | None \<Rightarrow> blockReason e)\<rparr>)"
    by (simp add: findRecord_optimistic [OF e(1)])
  moreover from w1 have "getOperations (pendingOps w1) eid =
             getOperations (pendingOps w) eid @
               [\<lparr>id_op = opId, recordId_op = eid, action_op = act, previousStatus = a0,
                 timestamp = ts\<rparr>]"
    by (simp add: getOperations_add)
  ultimately show ?thesis using r1 by simp
qed

lemmas hook_eval =
  mutate_def mutate_begin_def mutate_settle_def useRecordMutation_onMutate_def
  useRecordMutation_onError_def useRecordMutation_onSuccess_def updateRecord_def
  initializeStore_def setQueriesData_def getNextStatus_eq entity_def worldOf_def

text \<open>
  Claim C9.  When \<open>mutate\<close> is called for an identity that no cache holds, it
  fails with the error \<open>Record not found\<close>; the tracker and the caches are as
  before, and so is the server store, also when the store is still empty and a
  backing call would have filled it: the backing call is not made.
\<close>

theorem mutate_absent_entity:
  assumes "findRecord (queryCaches w) (recordId v) = None"
  shows "snd (mutate mockRecords w v opId ts now fails now') = Inl (Error ''Record not found'')
         \<and> pendingOps (fst (mutate mockRecords w v opId ts now fails now')) = pendingOps w
         \<and> queryCaches (fst (mutate mockRecords w v opId ts now fails now')) = queryCaches w
         \<and> recordsStore (fst (mutate mockRecords w v opId ts now fails now')) = recordsStore w"
  using assms
  by (simp add: mutate_def mutate_begin_def onMutate_notFound useRecordMutation_onError_def)

theorem mutate_absent_entity_witness:
  "findRecord (queryCaches (worldOf [entity ''e1'' Queued])) ''e9'' = None
   \<and> mutate [entity ''e9'' Queued] ((worldOf [entity ''e1'' Queued])\<lparr>recordsStore := []\<rparr>)
        \<lparr>recordId = ''e9'', action = review, blockReason_arg = None\<rparr>
        ''op1'' 1 ''t1'' False ''t2''
     = ((worldOf [entity ''e1'' Queued])
          \<lparr>recordsStore := [],
           toasts := [toast_error ''Failed to review''
                        ''The action could not be completed. Please try again.'']\<rparr>,
        Inl (Error ''Record not found''))"
proof -
  let ?w = "(worldOf [entity ''e1'' Queued])\<lparr>recordsStore := []\<rparr>"
  let ?v = "\<lparr>recordId = ''e9'', action = review, blockReason_arg = None\<rparr>"
  have f: "findRecord (queryCaches ?w) (recordId ?v) = None"
    by (simp add: worldOf_def entity_def)
  from mutate_absent_entity [OF f, of "[entity ''e9'' Queued]" "''op1''" 1 "''t1''" False "''t2''"] f
  show ?thesis
    by (simp add: hook_eval)
qed

text \<open>
  Claim C1.  The claim is that a rejected action leaves the tracker unchanged.  In
  the code \<open>onMutate\<close> calls \<open>addOperation\<close> before it asks \<open>getNextStatus\<close>, and
  \<open>onError\<close> then receives no context: for a cached record whose status rejects
  the action, \<open>mutate\<close> fails with \<open>Invalid transition\<close> and leaves the caches
  and the server store as they were, but the log of the record has gained the
  operation and the record has pending operations afterwards.
\<close>

theorem mutate_invalid_transition_leaves_operation:
  assumes "findRecord (queryCaches w) (recordId v) = Some prev"
      and "getNextStatus (status prev) (action v) = None"
  shows "snd (mutate mockRecords w v opId ts now fails now') = Inl (Error ''Invalid transition'')
    \<and> queryCaches (fst (mutate mockRecords w v opId ts now fails now')) = queryCaches w
    \<and> recordsStore (fst (mutate mockRecords w v opId ts now fails now')) = recordsStore w
    \<and> getOperations (pendingOps (fst (mutate mockRecords w v opId ts now fails now'))) (recordId v)
        = getOperations (pendingOps w) (recordId v) @
            [\<lparr>id_op = opId, recordId_op = recordId v, action_op = action v,
              previousStatus = status prev, timestamp = ts\<rparr>]
    \<and> hasPendingOps (pendingOps (fst (mutate mockRecords w v opId ts now fails now'))) (recordId v)"
  using assms
  by (simp add: mutate_def mutate_begin_def onMutate_invalid useRecordMutation_onError_def
        getOperations_add hasPendingOps_iff)

theorem mutate_invalid_transition_leaves_operation_witness:
  "findRecord (queryCaches (worldOf [entity ''e1'' Queued])) ''e1'' = Some (entity ''e1'' Queued)
   \<and> getNextStatus Queued publish = None
   \<and> \<not> hasPendingOps (pendingOps (worldOf [entity ''e1'' Queued])) ''e1''
   \<and> snd (mutate [] (worldOf [entity ''e1'' Queued])
             \<lparr>recordId = ''e1'', action = publish, blockReason_arg = None\<rparr>
             ''op1'' 1 ''t1'' False ''t2'') = Inl (Error ''Invalid transition'')
   \<and> hasPendingOps
        (pendingOps (fst (mutate [] (worldOf [entity ''e1'' Queued])
             \<lparr>recordId = ''e1'', action = publish, blockReason_arg = None\<rparr>
             ''op1'' 1 ''t1'' False ''t2''))) ''e1''"
proof -
  let ?w = "worldOf [entity ''e1'' Queued]"
  let ?v = "\<lparr>recordId = ''e1'', action = publish, blockReason_arg = None\<rparr>"
  have f: "findRecord (queryCaches ?w) (recordId ?v) = Some (entity ''e1'' Queued)"
    by (simp add: worldOf_def entity_def)
  have n: "getNextStatus (status (entity ''e1'' Queued)) (action ?v) = None"
    by (simp add: entity_def getNextStatus_eq)
  have p: "\<not> hasPendingOps (pendingOps ?w) ''e1''"
    by (simp add: worldOf_def tracker_eval)
  from mutate_invalid_transition_leaves_operation [OF f n, of "[]" "''op1''" 1 "''t1''" False "''t2''"]
    f n p
  show ?thesis by (simp add: entity_def)
qed

text \<open>
  Claim C3, as stated, at a concrete input: a record in review, approve begun, block
  begun before approve settles, then the backing call of approve fails.  After the
  failure is handled the record still has a pending operation, the block.
\<close>

theorem failed_mutate_still_pending_counterexample:
  "(case mutate_begin (worldOf [entity ''e1'' InReview])
           \<lparr>recordId = ''e1'', action = approve, blockReason_arg = None\<rparr> ''opA'' 1 ''t1'' of
      (wA, Inr cA) \<Rightarrow>
        (case mutate_begin wA
                \<lparr>recordId = ''e1'', action = block, blockReason_arg = Some ''policy''\<rparr>
                ''opB'' 2 ''t2'' of
           (wB, Inr cB) \<Rightarrow>
             (case mutate_settle [] wB
                     \<lparr>recordId = ''e1'', action = approve, blockReason_arg = None\<rparr> cA True ''t3'' of
                (w3, r) \<Rightarrow>
                  r = Inl (ApiFailure
                        \<lparr>message = ''Network error: Request failed. Please try again.'',
                         code = ''NETWORK_ERROR''\<rparr>)
                  \<and> hasPendingOps (pendingOps w3) ''e1''
                  \<and> getLatestAction (pendingOps w3) ''e1'' = Some block)
         | (wB, Inl err) \<Rightarrow> False)
    | (wA, Inl err) \<Rightarrow> False)"
  by (simp add: hook_eval tracker_eval)

text \<open>
  Claim C3, amended.  When a mutation has begun (the optimistic write is made) and
  its backing call fails, in whatever state the failure finds the caches and the
  tracker: the outcome is the error of the backing call; the operation of this
  mutation is gone from the log of the record and every other operation of the
  record is kept in order, so the record has pending operations afterwards exactly
  when another operation was pending for it, and none when the record had none
  before the mutation and none was begun meanwhile; and the record in the cache, if
  the record is still cached, is the snapshot taken when the mutation began.  The
  operation identity is not the empty string; an identity drawn by \<open>nanoid()\<close>
  never is, and \<open>onError\<close> skips the removal for an empty one.
\<close>

theorem mutate_failure_rolls_back:
  assumes start: "mutate_begin w v opId ts now = (w1, Inr c)"
      and opId: "opId \<noteq> []"
      and fail: "snd (updateRecord mockRecords (recordsStore w2) v fails now') = Inl err"
  shows "snd (mutate_settle mockRecords w2 v c fails now') = Inl (ApiFailure err)
    \<and> findRecord (queryCaches w) (recordId v) = Some (previousRecord c)
    \<and> getOperations (pendingOps (fst (mutate_settle mockRecords w2 v c fails now'))) (recordId v)
        = filter (\<lambda>op. id_op op \<noteq> opId) (getOperations (pendingOps w2) (recordId v))
    \<and> (hasPendingOps (pendingOps (fst (mutate_settle mockRecords w2 v c fails now'))) (recordId v)
          \<longleftrightarrow> (\<exists>op \<in> set (getOperations (pendingOps w2) (recordId v)). id_op op \<noteq> opId))
    \<and> (findRecord (queryCaches w2) (recordId v) \<noteq> None \<longrightarrow>
          findRecord (queryCaches (fst (mutate_settle mockRecords w2 v c fails now'))) (recordId v)
            = Some (previousRecord c))
    \<and> (\<not> hasPendingOps (pendingOps w) (recordId v) \<and> pendingOps w2 = pendingOps w1 \<longrightarrow>
          \<not> hasPendingOps (pendingOps (fst (mutate_settle mockRecords w2 v c fails now')))
               (recordId v))"
proof -
  from start obtain prev nextStatus where
    prev: "findRecord (queryCaches w) (recordId v) = Some prev"
    and c: "c = \<lparr>previousRecord = prev, operationId = opId\<rparr>"
    and p1: "pendingOps w1 = addOperation (pendingOps w) (recordId v) (action v) (status prev) opId ts"
    by (rule mutate_begin_Inr)
  from prev have idp: "id_rec prev = recordId v" by (rule findRecord_id)
  obtain rs where upd: "updateRecord mockRecords (recordsStore w2) v fails now' = (rs, Inl err)"
    using fail by (cases "updateRecord mockRecords (recordsStore w2) v fails now'") simp
  let ?w3 = "fst (mutate_settle mockRecords w2 v c fails now')"
  have w3: "?w3 = useRecordMutation_onError (w2\<lparr>recordsStore := rs\<rparr>) v (Some c)"
    and res: "snd (mutate_settle mockRecords w2 v c fails now') = Inl (ApiFailure err)"
    using upd by (simp_all add: mutate_settle_def)
  from c have pc: "previousRecord c = prev" and oid: "operationId c = opId" by simp_all
  from opId oid have oc: "operationId c \<noteq> []" by simp
  have q3: "queryCaches ?w3 =
      setQueriesData (queryCaches w2) (\<lambda>r. if id_rec r = recordId v then previousRecord c else r)"
    and p3: "pendingOps ?w3 = removeOperation (pendingOps w2) opId (recordId v)"
    unfolding w3 using oid by (simp_all add: onError_context [OF oc])
  have ops: "getOperations (pendingOps ?w3) (recordId v)
        = filter (\<lambda>op. id_op op \<noteq> opId) (getOperations (pendingOps w2) (recordId v))"
    by (simp add: p3 getOperations_remove)
  have pend: "hasPendingOps (pendingOps ?w3) (recordId v)
          \<longleftrightarrow> (\<exists>op \<in> set (getOperations (pendingOps w2) (recordId v)). id_op op \<noteq> opId)"
    by (simp add: hasPendingOps_iff ops filter_empty_conv)
  have restored: "findRecord (queryCaches ?w3) (recordId v) = Some (previousRecord c)"
    if "findRecord (queryCaches w2) (recordId v) \<noteq> None"
    using that idp unfolding q3 pc by (rule findRecord_rollback [rotated])
  have alone: "\<not> hasPendingOps (pendingOps ?w3) (recordId v)"
    if "\<not> hasPendingOps (pendingOps w) (recordId v)" "pendingOps w2 = pendingOps w1"
  proof -
    from that have "getOperations (pendingOps w2) (recordId v) =
        [\<lparr>id_op = opId, recordId_op = recordId v, action_op = action v,
          previousStatus = status prev, timestamp = ts\<rparr>]"
      by (simp add: p1 getOperations_add hasPendingOps_iff)
    then show ?thesis by (simp add: pend)
  qed
  from res prev c ops pend restored alone show ?thesis by auto
qed

theorem mutate_failure_rolls_back_witness:
  "snd (mutate_begin (worldOf [entity ''e1'' InReview])
          \<lparr>recordId = ''e1'', action = approve, blockReason_arg = None\<rparr> ''opA'' 1 ''t1'')
     = Inr \<lparr>previousRecord = entity ''e1'' InReview, operationId = ''opA''\<rparr>
   \<and> map_option status
        (findRecord (queryCaches (fst (mutate_begin (worldOf [entity ''e1'' InReview])
          \<lparr>recordId = ''e1'', action = approve, blockReason_arg = None\<rparr> ''opA'' 1 ''t1''))) ''e1'')
     = Some Approved
   \<and> snd (mutate [] (worldOf [entity ''e1'' InReview])
          \<lparr>recordId = ''e1'', action = approve, blockReason_arg = None\<rparr>
          ''opA'' 1 ''t1'' True ''t2'')
     = Inl (ApiFailure \<lparr>message = ''Network error: Request failed. Please try again.'',
                        code = ''NETWORK_ERROR''\<rparr>)
   \<and> \<not> hasPendingOps
        (pendingOps (fst (mutate [] (worldOf [entity ''e1'' InReview])
          \<lparr>recordId = ''e1'', action = approve, blockReason_arg = None\<rparr>
          ''opA'' 1 ''t1'' True ''t2''))) ''e1''
   \<and> findRecord
        (queryCaches (fst (mutate [] (worldOf [entity ''e1'' InReview])
          \<lparr>recordId = ''e1'', action = approve, blockReason_arg = None\<rparr>
          ''opA'' 1 ''t1'' True ''t2''))) ''e1''
     = Some (entity ''e1'' InReview)"
proof -
  let ?w = "worldOf [entity ''e1'' InReview]"
  let ?v = "\<lparr>recordId = ''e1'', action = approve, blockReason_arg = None\<rparr>"
  let ?c = "\<lparr>previousRecord = entity ''e1'' InReview, operationId = ''opA''\<rparr>"
  let ?w1 = "fst (mutate_begin ?w ?v ''opA'' 1 ''t1'')"
  have sndb: "snd (mutate_begin ?w ?v ''opA'' 1 ''t1'') = Inr ?c"
    by (simp add: hook_eval)
  then have start: "mutate_begin ?w ?v ''opA'' 1 ''t1'' = (?w1, Inr ?c)"
    by (simp add: prod_eq_iff)
  have opId: "''opA'' \<noteq> []" by simp
  have fail: "snd (updateRecord [] (recordsStore ?w1) ?v True ''t2'') =
      Inl \<lparr>message = ''Network error: Request failed. Please try again.'',
           code = ''NETWORK_ERROR''\<rparr>"
    by (simp add: updateRecord_def)
  have m: "mutate [] ?w ?v ''opA'' 1 ''t1'' True ''t2'' = mutate_settle [] ?w1 ?v ?c True ''t2''"
    using start by (rule mutate_after_begin)
  have nop: "\<not> hasPendingOps (pendingOps ?w) (recordId ?v)"
    by (simp add: worldOf_def tracker_eval)
  have cached: "findRecord (queryCaches ?w1) (recordId ?v) \<noteq> None"
    by (simp add: hook_eval)
  have opt: "map_option status (findRecord (queryCaches ?w1) ''e1'') = Some Approved"
    by (simp add: hook_eval)
  from mutate_failure_rolls_back [OF start opId fail] nop cached
  have "snd (mutate_settle [] ?w1 ?v ?c True ''t2'') =
      Inl (ApiFailure \<lparr>message = ''Network error: Request failed. Please try again.'',
                       code = ''NETWORK_ERROR''\<rparr>)"
    and "\<not> hasPendingOps (pendingOps (fst (mutate_settle [] ?w1 ?v ?c True ''t2'')))
           (recordId ?v)"
    and "findRecord (queryCaches (fst (mutate_settle [] ?w1 ?v ?c True ''t2''))) (recordId ?v)
          = Some (previousRecord ?c)"
    by blast+
  with sndb opt show ?thesis unfolding m by simp
qed

text \<open>
  The scenario of claim C4 in the code, for any cached record in review: approve (A)
  begun and then block with reason \<open>policy\<close> (B) begun.  Both begin; the snapshot
  of A is the record in review; the snapshot of B has status Approved, the status A
  wrote into the cache, whether B begins before A settles or after A has committed;
  after B the cached status is Blocked; when the backing call of A then fails the
  cached record is the snapshot of A again.  The identity of A is not the empty
  string, as no identity drawn by \<open>nanoid()\<close> is.
\<close>

lemma overlapping_approve_then_block:
  assumes e: "findRecord (queryCaches w) eid = Some e" "status e = InReview"
      and opA: "opA \<noteq> []"
      and vA: "vA = \<lparr>recordId = eid, action = approve, blockReason_arg = None\<rparr>"
      and vB: "vB = \<lparr>recordId = eid, action = block, blockReason_arg = Some ''policy''\<rparr>"
      and A: "mutate_begin w vA opA tsA nowA = (wA, rA)"
      and B: "mutate_begin wA vB opB tsB nowB = (wB, rB)"
  shows "\<exists>cA cB. rA = Inr cA \<and> rB = Inr cB
      \<and> previousRecord cA = e
      \<and> status (previousRecord cB) = Approved
      \<and> map previousStatus (getOperations (pendingOps wB) eid) =
          map previousStatus (getOperations (pendingOps w) eid) @ [InReview, Approved]
      \<and> map_option status (findRecord (queryCaches wB) eid) = Some Blocked
      \<and> map_option blockReason (findRecord (queryCaches wB) eid) = Some (Some ''policy'')
      \<and> (snd (updateRecord mockRecords (recordsStore wB) vA failsA nowF) = Inl err \<longrightarrow>
            findRecord (queryCaches (fst (mutate_settle mockRecords wB vA cA failsA nowF))) eid
              = Some e)
      \<and> (\<forall>wA' r wB' rB'.
            mutate_settle mockRecords wA vA cA failsA nowF = (wA', Inr r)
            \<and> mutate_begin wA' vB opB tsB nowB = (wB', rB') \<longrightarrow>
            (\<exists>cB'. rB' = Inr cB'
               \<and> status (previousRecord cB') = Approved
               \<and> map_option status (findRecord (queryCaches wB') eid) = Some Blocked))"
proof -
  let ?cA = "\<lparr>previousRecord = e, operationId = opA\<rparr>"
  let ?eA = "e\<lparr>status := Approved, updatedAt := nowA,
               blockReason := (case None of Some b \<Rightarrow> Some b | None \<Rightarrow> blockReason e)\<rparr>"
  let ?cB = "\<lparr>previousRecord = ?eA, operationId = opB\<rparr>"
  have nA: "getNextStatus InReview approve = Some Approved"
    and nB: "getNextStatus Approved block = Some Blocked"
    by (simp_all add: getNextStatus_eq)
  from mutate_begin_cached [OF e nA] A
  have rA: "rA = Inr ?cA"
    and fA: "findRecord (queryCaches wA) eid = Some ?eA"
    and oA: "getOperations (pendingOps wA) eid = getOperations (pendingOps w) eid @
               [\<lparr>id_op = opA, recordId_op = eid, action_op = approve, previousStatus = InReview,
                 timestamp = tsA\<rparr>]"
    unfolding vA by blast+
  have sA: "status ?eA = Approved" by simp
  from mutate_begin_cached [OF fA sA nB] B
  have rB: "rB = Inr ?cB"
    and fB: "findRecord (queryCaches wB) eid =
        Some (?eA\<lparr>status := Blocked, updatedAt := nowB,
                 blockReason := (case Some ''policy'' of
                                   Some b \<Rightarrow> Some b | None \<Rightarrow> blockReason ?eA)\<rparr>)"
    and oB: "getOperations (pendingOps wB) eid = getOperations (pendingOps wA) eid @
               [\<lparr>id_op = opB, recordId_op = eid, action_op = block, previousStatus = Approved,
                 timestamp = tsB\<rparr>]"
    unfolding vB by blast+
  have ide: "id_rec e = eid" using e(1) by (rule findRecord_id)
  have rollback: "findRecord (queryCaches (fst (mutate_settle mockRecords wB vA ?cA failsA nowF))) eid
              = Some e"
    if "snd (updateRecord mockRecords (recordsStore wB) vA failsA nowF) = Inl err"
  proof -
    have "operationId ?cA \<noteq> []" using opA by simp
    from settle_failure(2) [OF that this]
    have "queryCaches (fst (mutate_settle mockRecords wB vA ?cA failsA nowF)) =
        setQueriesData (queryCaches wB) (\<lambda>r. if id_rec r = eid then e else r)"
      by (simp add: vA cong: if_cong)
    moreover have "findRecord (queryCaches wB) eid \<noteq> None" using fB by simp
    ultimately show ?thesis using ide by (simp add: findRecord_rollback)
  qed
  have second: "\<exists>cB'. rB' = Inr cB'
               \<and> status (previousRecord cB') = Approved
               \<and> map_option status (findRecord (queryCaches wB') eid) = Some Blocked"
    if s: "mutate_settle mockRecords wA vA ?cA failsA nowF = (wA', Inr r)"
      and b: "mutate_begin wA' vB opB tsB nowB = (wB', rB')"
    for wA' r wB' rB'
  proof -
    from settle_success [OF s] fA
    have fA': "findRecord (queryCaches wA') eid = Some ?eA" by simp
    from mutate_begin_cached [OF fA' sA nB] b
    have "rB' = Inr ?cB"
      and "findRecord (queryCaches wB') eid =
        Some (?eA\<lparr>status := Blocked, updatedAt := nowB,
                 blockReason := (case Some ''policy'' of
                                   Some b \<Rightarrow> Some b | None \<Rightarrow> blockReason ?eA)\<rparr>)"
      unfolding vB by blast+
    then show ?thesis by simp
  qed
  have "rA = Inr ?cA \<and> rB = Inr ?cB
      \<and> previousRecord ?cA = e
      \<and> status (previousRecord ?cB) = Approved
      \<and> map previousStatus (getOperations (pendingOps wB) eid) =
          map previousStatus (getOperations (pendingOps w) eid) @ [InReview, Approved]
      \<and> map_option status (findRecord (queryCaches wB) eid) = Some Blocked
      \<and> map_option blockReason (findRecord (queryCaches wB) eid) = Some (Some ''policy'')"
    using rA rB oA oB fB by simp
  with rollback second show ?thesis by blast
qed

text \<open>
  Claim C4.  The claim is that, when approve has not committed, the anchor of the
  block begun after it is InReview, as the example flow of the README has it.  In
  the code \<open>onMutate\<close> reads the anchor from the cache, where approve has already
  written Approved: with approve pending and the server store still holding the
  record in review, the snapshot and the recorded previous status of block are
  Approved.  When approve fails the cache goes back to InReview, as the claim says;
  when block then fails as well its rollback writes the Approved snapshot, so the
  cache ends at a status that was never committed while the server store holds
  InReview and nothing is pending.
\<close>

theorem overlapping_block_anchor_is_optimistic:
  "(case mutate_begin (worldOf [entity ''e1'' InReview])
           \<lparr>recordId = ''e1'', action = approve, blockReason_arg = None\<rparr> ''opA'' 1 ''t1'' of
      (wA, Inr cA) \<Rightarrow>
        (case mutate_begin wA
                \<lparr>recordId = ''e1'', action = block, blockReason_arg = Some ''policy''\<rparr>
                ''opB'' 2 ''t2'' of
           (wB, Inr cB) \<Rightarrow>
             hasPendingOps (pendingOps wA) ''e1''
             \<and> recordsStore wA = [entity ''e1'' InReview]
             \<and> status (previousRecord cB) = Approved
             \<and> status (previousRecord cB) \<noteq> InReview
             \<and> map (\<lambda>op. (id_op op, previousStatus op)) (getOperations (pendingOps wB) ''e1'')
                 = [(''opA'', InReview), (''opB'', Approved)]
             \<and> (case mutate_settle [] wB
                     \<lparr>recordId = ''e1'', action = approve, blockReason_arg = None\<rparr>
                     cA True ''t3'' of
                  (wC, rA) \<Rightarrow>
                    map_option status (findRecord (queryCaches wC) ''e1'') = Some InReview
                    \<and> (case mutate_settle [] wC
                            \<lparr>recordId = ''e1'', action = block,
                             blockReason_arg = Some ''policy''\<rparr> cB True ''t4'' of
                         (wD, rB) \<Rightarrow>
                           map_option status (findRecord (queryCaches wD) ''e1'') = Some Approved
                           \<and> map status (recordsStore wD) = [InReview]
                           \<and> \<not> hasPendingOps (pendingOps wD) ''e1''))
         | (wB, Inl err) \<Rightarrow> False)
    | (wA, Inl err) \<Rightarrow> False)"
  by (simp add: hook_eval tracker_eval)





section \<open>Batch mutation\<close>

lemma findIndex_update:
  "i < length xs \<Longrightarrow> P v = P (xs ! i) \<Longrightarrow> findIndex P (xs[i := v]) = findIndex P xs"
proof (induction xs arbitrary: i)
  case Nil
  then show ?case by simp
next
  case (Cons a xs)
  then show ?case by (cases i) simp_all
qed

lemma findIndex_Some:
  "findIndex P xs = Some i \<Longrightarrow> i < length xs \<and> P (xs ! i)"
proof (induction xs arbitrary: i)
  case Nil
  then show ?case by simp
next
  case (Cons a xs)
  then show ?case by (cases "P a") auto
qed

lemma updateRecord_valid:
  assumes "findIndex (\<lambda>r. id_rec r = recordId params) rs = Some i"
      and "getNextStatus (status (rs ! i)) (action params) = Some nextStatus"
  shows "updateRecord mockRecords rs params False now =
     (rs[i := (rs ! i)\<lparr>status := nextStatus, updatedAt := now,
                        blockReason := (if action params = block then blockReason_arg params
                                        else blockReason (rs ! i))\<rparr>],
      Inr ((rs ! i)\<lparr>status := nextStatus, updatedAt := now,
                     blockReason := (if action params = block then blockReason_arg params
                                     else blockReason (rs ! i))\<rparr>))"
proof -
  from assms(1) have "rs \<noteq> []" by auto
  then have "initializeStore mockRecords rs = rs" by (simp add: initializeStore_def)
  with assms show ?thesis by (simp add: updateRecord_def Let_def)
qed

lemma updateRecord_invalid:
  assumes "findIndex (\<lambda>r. id_rec r = recordId params) rs = Some i"
      and "getNextStatus (status (rs ! i)) (action params) = None"
  shows "updateRecord mockRecords rs params False now =
     (rs, Inl \<lparr>message = invalidTransitionMessage (action params) (status (rs ! i)),
               code = ''INVALID_TRANSITION''\<rparr>)"
proof -
  from assms(1) have "rs \<noteq> []" by auto
  then have "initializeStore mockRecords rs = rs" by (simp add: initializeStore_def)
  with assms show ?thesis by (simp add: updateRecord_def Let_def)
qed

lemma completionOrder_two:
  "completionOrder sim (Suc (Suc 0)) =
     (if latency (sim 0) \<le> latency (sim (Suc 0)) then [0, Suc 0] else [Suc 0, 0])"
proof -
  have "[0..<Suc (Suc 0)] = [0, Suc 0]" by (simp add: upt_rec)
  then show ?thesis by (simp add: completionOrder_def)
qed

lemma batchUpdate_publish_XY:
  assumes xy: "x \<noteq> y"
      and x: "findIndex (\<lambda>r. id_rec r = x) rs = Some i" "status (rs ! i) = Approved"
      and y: "findIndex (\<lambda>r. id_rec r = y) rs = Some j" "status (rs ! j) = Queued"
      and ok: "\<not> shouldFail (sim 0)" "\<not> shouldFail (sim 1)"
  shows "batchUpdate mockRecords rs
           \<lparr>recordIds = [x, y], action_b = publish, blockReason_b = reason\<rparr> sim =
         (rs[i := (rs ! i)\<lparr>status := Published, updatedAt := isoNow (sim 0)\<rparr>],
          \<lparr>successful = [(rs ! i)\<lparr>status := Published, updatedAt := isoNow (sim 0)\<rparr>],
           failed = [\<lparr>recordId_f = y, error_f = invalidTransitionMessage publish Queued\<rparr>]\<rparr>)"
proof -
  let ?X = "(rs ! i)\<lparr>status := Published, updatedAt := isoNow (sim 0)\<rparr>"
  let ?rs = "rs[i := ?X]"
  let ?p = "\<lparr>recordIds = [x, y], action_b = publish, blockReason_b = reason\<rparr>"
  let ?vx = "\<lparr>recordId = x, action = publish, blockReason_arg = reason\<rparr>"
  let ?vy = "\<lparr>recordId = y, action = publish, blockReason_arg = reason\<rparr>"
  have nx: "getNextStatus Approved publish = Some Published"
    and ny: "getNextStatus Queued publish = None"
    by (simp_all add: getNextStatus_eq)
  from x(1) have ix: "i < length rs" "id_rec (rs ! i) = x"
    using findIndex_Some [of "\<lambda>r. id_rec r = x" rs i] by simp_all
  from y(1) have jy: "j < length rs" "id_rec (rs ! j) = y"
    using findIndex_Some [of "\<lambda>r. id_rec r = y" rs j] by simp_all
  from ix jy xy have ij: "i \<noteq> j" by auto
  from x(1) have ne: "rs \<noteq> []" by auto
  have init: "initializeStore mockRecords rs = rs"
    using ne by (simp add: initializeStore_def)
  have ux: "updateRecord mockRecords rs ?vx False t = (rs[i := (rs ! i)\<lparr>status := Published, updatedAt := t\<rparr>],
        Inr ((rs ! i)\<lparr>status := Published, updatedAt := t\<rparr>))" for t
    using updateRecord_valid [of ?vx rs i Published mockRecords t] x nx by simp
  have uy: "updateRecord mockRecords rs ?vy False t =
      (rs, Inl \<lparr>message = invalidTransitionMessage publish Queued, code = ''INVALID_TRANSITION''\<rparr>)"
    for t
    using updateRecord_invalid [of ?vy rs j mockRecords t] y ny by simp
  have fx': "findIndex (\<lambda>r. id_rec r = y) ?rs = Some j"
    using findIndex_update [of i rs "\<lambda>r. id_rec r = y" ?X] ix y(1) by simp
  have sj: "status (?rs ! j) = Queued" using ij y(2) by simp
  have uy': "updateRecord mockRecords ?rs ?vy False t =
      (?rs, Inl \<lparr>message = invalidTransitionMessage publish Queued, code = ''INVALID_TRANSITION''\<rparr>)"
    for t
    using updateRecord_invalid [of ?vy ?rs j mockRecords t] fx' sj ny by simp
  show ?thesis
  proof (cases "latency (sim 0) \<le> latency (sim 1)")
    case True
    then have "completionOrder sim (length (recordIds ?p)) = [0, Suc 0]"
      by (simp add: completionOrder_two)
    then show ?thesis
      using ok by (simp add: batchUpdate_def init ux uy')
  next
    case False
    then have "completionOrder sim (length (recordIds ?p)) = [Suc 0, 0]"
      by (simp add: completionOrder_two)
    then show ?thesis
      using ok by (simp add: batchUpdate_def init ux uy)
  qed
qed

lemma batch_onMutate_frame:
  "recordsStore (fst (useBatchMutation_onMutate w variables nanoid dateNow now)) = recordsStore w
   \<and> toasts (fst (useBatchMutation_onMutate w variables nanoid dateNow now)) = toasts w
   \<and> queryCaches (fst (useBatchMutation_onMutate w variables nanoid dateNow now)) =
       setQueriesData (queryCaches w)
         (\<lambda>r. if List.member (recordIds variables) (id_rec r)
              then (case getNextStatus (status r) (action_b variables) of
                      Some nextStatus \<Rightarrow>
                        r\<lparr>status := nextStatus,
                           updatedAt := now,
                           blockReason := (case blockReason_b variables of
                                             Some b \<Rightarrow> Some b
                                           | None \<Rightarrow> blockReason r)\<rparr>
                    | None \<Rightarrow> r)
              else r)"
  by (simp add: useBatchMutation_onMutate_def split: prod.splits)

lemma if3_frame:
  fixes w :: World
  shows "recordsStore (if b1 then w\<lparr>toasts := t1\<rparr> else if b2 then w\<lparr>toasts := t2\<rparr>
                       else if b3 then w\<lparr>toasts := t3\<rparr> else w) = recordsStore w"
    and "queryCaches (if b1 then w\<lparr>toasts := t1\<rparr> else if b2 then w\<lparr>toasts := t2\<rparr>
                      else if b3 then w\<lparr>toasts := t3\<rparr> else w) = queryCaches w"
  by simp_all

lemma batch_onSuccess_frame:
  "recordsStore (useBatchMutation_onSuccess w result variables context) = recordsStore w
   \<and> queryCaches (useBatchMutation_onSuccess w result variables context) = queryCaches w"
proof (cases "context")
  case None
  show ?thesis
    unfolding useBatchMutation_onSuccess_def Let_def None option.case
    by (simp only: if3_frame simp_thms)
next
  case (Some c)
  have "recordsStore (w\<lparr>pendingOps := p\<rparr>) = recordsStore w"
    and "queryCaches (w\<lparr>pendingOps := p\<rparr>) = queryCaches w" for p
    by simp_all
  then show ?thesis
    unfolding useBatchMutation_onSuccess_def Let_def Some option.case
    by (simp only: if3_frame simp_thms)
qed

lemma batch_onSuccess_partial:
  assumes "length (successful result) = 1" "length (failed result) = 1"
  shows "toasts (useBatchMutation_onSuccess w result variables context) =
     toasts w @ [toast_warning ''Partially completed'' ''1 succeeded, 1 failed.'']"
proof -
  have "showNat 1 = ''1''" by (simp add: showNat.simps)
  with assms show ?thesis
    by (simp add: useBatchMutation_onSuccess_def Let_def split: option.splits)
qed

text \<open>
  Claim C6.  A batch publish over the identities of X and Y, where the server store
  holds X as Approved and Y as Queued, the cache holds X as Approved, and the
  simulated transport failure hits neither call: whatever the latencies, the result
  has \<open>successful\<close> equal to X with status Published and \<open>failed\<close> equal to the one
  entry of Y with the invalid transition message; the result is returned, no error is
  raised; X is Published in the server store and in the cache afterwards; and the
  notification is the warning \<open>Partially completed\<close>.
\<close>

theorem batch_publish_partial:
  assumes xy: "x \<noteq> y"
      and x: "findIndex (\<lambda>r. id_rec r = x) (recordsStore w) = Some i"
             "status (recordsStore w ! i) = Approved"
      and y: "findIndex (\<lambda>r. id_rec r = y) (recordsStore w) = Some j"
             "status (recordsStore w ! j) = Queued"
      and ok: "\<not> shouldFail (sim 0)" "\<not> shouldFail (sim 1)"
      and cx: "findRecord (queryCaches w) x = Some c" "status c = Approved"
  shows "snd (mutateMany mockRecords w
                \<lparr>recordIds = [x, y], action_b = publish, blockReason_b = reason\<rparr>
                nanoid dateNow now sim) =
           \<lparr>successful = [(recordsStore w ! i)\<lparr>status := Published, updatedAt := isoNow (sim 0)\<rparr>],
            failed = [\<lparr>recordId_f = y, error_f = invalidTransitionMessage publish Queued\<rparr>]\<rparr>
    \<and> recordsStore (fst (mutateMany mockRecords w
                \<lparr>recordIds = [x, y], action_b = publish, blockReason_b = reason\<rparr>
                nanoid dateNow now sim)) =
           (recordsStore w)[i := (recordsStore w ! i)\<lparr>status := Published,
                                                      updatedAt := isoNow (sim 0)\<rparr>]
    \<and> toasts (fst (mutateMany mockRecords w
                \<lparr>recordIds = [x, y], action_b = publish, blockReason_b = reason\<rparr>
                nanoid dateNow now sim)) =
           toasts w @ [toast_warning ''Partially completed'' ''1 succeeded, 1 failed.'']
    \<and> map_option status (findRecord (queryCaches (fst (mutateMany mockRecords w
                \<lparr>recordIds = [x, y], action_b = publish, blockReason_b = reason\<rparr>
                nanoid dateNow now sim))) x) = Some Published"
proof -
  let ?p = "\<lparr>recordIds = [x, y], action_b = publish, blockReason_b = reason\<rparr>"
  let ?m = "useBatchMutation_onMutate w ?p nanoid dateNow now"
  let ?X = "(recordsStore w ! i)\<lparr>status := Published, updatedAt := isoNow (sim 0)\<rparr>"
  let ?res = "\<lparr>successful = [?X],
      failed = [\<lparr>recordId_f = y, error_f = invalidTransitionMessage publish Queued\<rparr>]\<rparr>"
  let ?f = "\<lambda>r. if List.member (recordIds ?p) (id_rec r)
              then (case getNextStatus (status r) (action_b ?p) of
                      Some nextStatus \<Rightarrow>
                        r\<lparr>status := nextStatus,
                           updatedAt := now,
                           blockReason := (case blockReason_b ?p of
                                             Some b \<Rightarrow> Some b
                                           | None \<Rightarrow> blockReason r)\<rparr>
                    | None \<Rightarrow> r)
              else r"
  have frame: "recordsStore (fst ?m) = recordsStore w" "toasts (fst ?m) = toasts w"
    "queryCaches (fst ?m) = setQueriesData (queryCaches w) ?f"
    using batch_onMutate_frame [of w ?p nanoid dateNow now] by blast+
  have bu: "batchUpdate mockRecords (recordsStore (fst ?m)) ?p sim =
      ((recordsStore w)[i := ?X], ?res)"
    unfolding frame(1) using xy x y ok by (rule batchUpdate_publish_XY)
  have mm: "mutateMany mockRecords w ?p nanoid dateNow now sim =
      (useBatchMutation_onSuccess ((fst ?m)\<lparr>recordsStore := (recordsStore w)[i := ?X]\<rparr>)
         ?res ?p (Some (snd ?m)), ?res)"
    by (simp add: mutateMany_def case_prod_beta bu)
  have ids: "id_rec (?f r) = id_rec r" for r
    by (simp split: option.splits)
  from cx(1) have "id_rec c = x" by (rule findRecord_id)
  moreover have "getNextStatus Approved publish = Some Published"
    by (simp add: getNextStatus_eq)
  ultimately have fc: "status (?f c) = Published"
    using cx(2) by simp
  have "findRecord (setQueriesData (queryCaches w) ?f) x = map_option ?f (findRecord (queryCaches w) x)"
    using ids by (rule findRecord_setQueriesData)
  with cx(1) fc
  have cache: "map_option status (findRecord (setQueriesData (queryCaches w) ?f) x) = Some Published"
    by simp
  let ?w2 = "(fst ?m)\<lparr>recordsStore := (recordsStore w)[i := ?X]\<rparr>"
  have t: "toasts (useBatchMutation_onSuccess ?w2 ?res ?p (Some (snd ?m))) =
      toasts ?w2 @ [toast_warning ''Partially completed'' ''1 succeeded, 1 failed.'']"
    by (rule batch_onSuccess_partial) simp_all
  have r: "recordsStore (useBatchMutation_onSuccess ?w2 ?res ?p (Some (snd ?m))) = recordsStore ?w2"
    and q: "queryCaches (useBatchMutation_onSuccess ?w2 ?res ?p (Some (snd ?m))) = queryCaches ?w2"
    using batch_onSuccess_frame [of ?w2 ?res ?p "Some (snd ?m)"] by blast+
  have w2: "toasts ?w2 = toasts w" "recordsStore ?w2 = (recordsStore w)[i := ?X]"
    "queryCaches ?w2 = setQueriesData (queryCaches w) ?f"
    using frame by simp_all
  show ?thesis
    unfolding mm fst_conv snd_conv t r q w2
    using cache by simp
qed

theorem batch_publish_partial_witness:
  "''x'' \<noteq> ''y''
   \<and> findIndex (\<lambda>r. id_rec r = ''x'')
        (recordsStore (worldOf [entity ''x'' Approved, entity ''y'' Queued])) = Some 0
   \<and> findIndex (\<lambda>r. id_rec r = ''y'')
        (recordsStore (worldOf [entity ''x'' Approved, entity ''y'' Queued])) = Some 1
   \<and> snd (mutateMany [] (worldOf [entity ''x'' Approved, entity ''y'' Queued])
          \<lparr>recordIds = [''x'', ''y''], action_b = publish, blockReason_b = None\<rparr>
          (\<lambda>n. if n = 0 then ''op0'' else ''op1'') (\<lambda>n. n) ''t1''
          (\<lambda>i. \<lparr>latency = 300, shouldFail = False, isoNow = ''t2''\<rparr>))
     = \<lparr>successful = [(entity ''x'' Approved)\<lparr>status := Published, updatedAt := ''t2''\<rparr>],
        failed = [\<lparr>recordId_f = ''y'',
                   error_f = ''Invalid transition: Cannot publish a record with status '' @
                             [CHR 0x22] @ ''Queued'' @ [CHR 0x22]\<rparr>]\<rparr>
   \<and> toasts (fst (mutateMany [] (worldOf [entity ''x'' Approved, entity ''y'' Queued])
          \<lparr>recordIds = [''x'', ''y''], action_b = publish, blockReason_b = None\<rparr>
          (\<lambda>n. if n = 0 then ''op0'' else ''op1'') (\<lambda>n. n) ''t1''
          (\<lambda>i. \<lparr>latency = 300, shouldFail = False, isoNow = ''t2''\<rparr>)))
     = [toast_warning ''Partially completed'' ''1 succeeded, 1 failed.'']
   \<and> map status (recordsStore (fst (mutateMany [] (worldOf [entity ''x'' Approved, entity ''y'' Queued])
          \<lparr>recordIds = [''x'', ''y''], action_b = publish, blockReason_b = None\<rparr>
          (\<lambda>n. if n = 0 then ''op0'' else ''op1'') (\<lambda>n. n) ''t1''
          (\<lambda>i. \<lparr>latency = 300, shouldFail = False, isoNow = ''t2''\<rparr>))))
     = [Published, Queued]"
proof -
  let ?w = "worldOf [entity ''x'' Approved, entity ''y'' Queued]"
  let ?sim = "\<lambda>i::nat. \<lparr>latency = 300, shouldFail = False, isoNow = ''t2''\<rparr>"
  have xy: "''x'' \<noteq> ''y''" by simp
  have x: "findIndex (\<lambda>r. id_rec r = ''x'') (recordsStore ?w) = Some 0"
          "status (recordsStore ?w ! 0) = Approved"
    and y: "findIndex (\<lambda>r. id_rec r = ''y'') (recordsStore ?w) = Some 1"
           "status (recordsStore ?w ! 1) = Queued"
    by (simp_all add: worldOf_def entity_def)
  have ok: "\<not> shouldFail (?sim 0)" "\<not> shouldFail (?sim 1)" by simp_all
  have c: "findRecord (queryCaches ?w) ''x'' = Some (entity ''x'' Approved)"
          "status (entity ''x'' Approved) = Approved"
    by (simp_all add: worldOf_def entity_def)
  from batch_publish_partial [OF xy x y ok c, of "[]" None
      "\<lambda>n. if n = 0 then ''op0'' else ''op1''" "\<lambda>n. n" "''t1''"] x(1) y(1)
  show ?thesis
    by (simp add: worldOf_def entity_def invalidTransitionMessage_def)
qed

end
